theory Spec2Isabelle
  imports Main "HOL-Library.Word"
begin

unbundle bit_operations_syntax

section \<open>Common vocabulary\<close>

text \<open>
  Go strings are byte strings, modelled as \<open>string\<close> (a list of 8-bit characters).
  A byte slice is a list of 8-bit words. An \<open>error\<close> is its message; a function
  returning \<open>error\<close> returns \<open>error option\<close> (\<open>None\<close> is Go's \<open>nil\<close>), and a
  function returning \<open>(T, error)\<close> returns \<open>error + T\<close>.
\<close>

type_synonym byte = "8 word"
type_synonym error = string

definition bytes_of_string :: "string \<Rightarrow> byte list" where
  \<comment> \<open>the conversion \<open>[]byte(s)\<close>\<close>
  "bytes_of_string s = map of_char s"

definition HasSuffix :: "string \<Rightarrow> string \<Rightarrow> bool" where
  "HasSuffix s suffix =
     (length suffix \<le> length s \<and> drop (length s - length suffix) s = suffix)"

definition TrimSuffix :: "string \<Rightarrow> string \<Rightarrow> string" where
  "TrimSuffix s suffix =
     (if HasSuffix s suffix then take (length s - length suffix) s else s)"

fun split_on :: "char \<Rightarrow> string \<Rightarrow> string list" where
  \<comment> \<open>\<open>strings.Split\<close> with a one-byte separator: always at least one element\<close>
  "split_on c [] = [[]]"
| "split_on c (x # xs) =
     (if x = c then [] # split_on c xs
      else (case split_on c xs of
              y # ys \<Rightarrow> (x # y) # ys
            | [] \<Rightarrow> [[x]]))"

fun join_with :: "string \<Rightarrow> string list \<Rightarrow> string" where
  \<comment> \<open>\<open>strings.Join\<close>\<close>
  "join_with sep [] = []"
| "join_with sep [x] = x"
| "join_with sep (x # y # ys) = x @ sep @ join_with sep (y # ys)"

section \<open>Package path/filepath (Unix separators)\<close>

text \<open>
  The standard library's \<open>filepath.Clean\<close>, \<open>Base\<close>, \<open>Dir\<close> and \<open>Join\<close> for a
  platform whose only separator is the slash and that has no volume names.
  \<open>Clean\<close> reads the path element by element: empty elements and \<open>.\<close> are dropped,
  \<open>..\<close> removes the element written last when there is one to remove, is dropped at the
  root, and is kept at the front of a relative path.
\<close>

fun clean_elems :: "bool \<Rightarrow> string list \<Rightarrow> string list \<Rightarrow> string list" where
  "clean_elems rooted out [] = rev out"
| "clean_elems rooted out (e # es) =
     (if e = [] \<or> e = ''.'' then clean_elems rooted out es
      else if e = ''..'' then
        (if out \<noteq> [] \<and> hd out \<noteq> ''..'' then clean_elems rooted (tl out) es
         else if \<not> rooted then clean_elems rooted (''..'' # out) es
         else clean_elems rooted out es)
      else clean_elems rooted (e # out) es)"

definition Clean :: "string \<Rightarrow> string" where
  "Clean path =
     (if path = [] then ''.''
      else
        let rooted = (hd path = CHR ''/'');
            out = clean_elems rooted [] (split_on CHR ''/'' path);
            s = (if rooted then ''/'' else []) @ join_with ''/'' out
        in if s = [] then ''.'' else s)"

definition Base :: "string \<Rightarrow> string" where
  "Base path =
     (if path = [] then ''.''
      else
        let stripped = rev (dropWhile (\<lambda>c. c = CHR ''/'') (rev path));
            elem = rev (takeWhile (\<lambda>c. c \<noteq> CHR ''/'') (rev stripped))
        in if elem = [] then ''/'' else elem)"

definition Dir :: "string \<Rightarrow> string" where
  "Dir path = Clean (rev (dropWhile (\<lambda>c. c \<noteq> CHR ''/'') (rev path)))"

definition Join :: "string list \<Rightarrow> string" where
  "Join elem =
     (case dropWhile (\<lambda>e. e = []) elem of
        [] \<Rightarrow> []
      | es \<Rightarrow> Clean (join_with ''/'' es))"

section \<open>Package utils: hashing\<close>

text \<open>
  \<open>crypto/sha256\<close> and \<open>crypto/sha512\<close> are parameters: \<open>Sum256\<close> returns a
  \<open>[32]byte\<close>, here a 256-bit word read big-endian, \<open>Sum512\<close> a \<open>[64]byte\<close>.
\<close>

record digests =
  Sum256 :: "byte list \<Rightarrow> 256 word"
  Sum512 :: "byte list \<Rightarrow> 512 word"

definition array32 :: "256 word \<Rightarrow> byte list" where
  "array32 w = map (\<lambda>i. ucast (drop_bit (8 * (31 - i)) w)) [0..<32]"

definition array64 :: "512 word \<Rightarrow> byte list" where
  "array64 w = map (\<lambda>i. ucast (drop_bit (8 * (63 - i)) w)) [0..<64]"

definition hextable :: string where
  "hextable = ''0123456789abcdef''"

fun EncodeToString :: "byte list \<Rightarrow> string" where
  \<comment> \<open>\<open>encoding/hex\<close>: two lower-case digits per byte, high nibble first\<close>
  "EncodeToString [] = []"
| "EncodeToString (v # vs) =
     hextable ! unat (drop_bit 4 v) # hextable ! unat (v AND 0x0f) # EncodeToString vs"

definition ComputeSHA256 :: "digests \<Rightarrow> byte list \<Rightarrow> string" where
  "ComputeSHA256 h data = EncodeToString (array32 (Sum256 h data))"

definition ComputeSHA512 :: "digests \<Rightarrow> byte list \<Rightarrow> string" where
  "ComputeSHA512 h data = EncodeToString (array64 (Sum512 h data))"

definition VerifyHash :: "digests \<Rightarrow> byte list \<Rightarrow> string \<Rightarrow> string \<Rightarrow> error option" where
  "VerifyHash h data algorithm expected =
     (if algorithm = ''sha256'' \<or> algorithm = ''sha512'' then
        let actual = (if algorithm = ''sha256'' then ComputeSHA256 h data
                      else ComputeSHA512 h data)
        in if actual \<noteq> expected
           then Some (''hash mismatch: expected '' @ expected @ '', got '' @ actual)
           else None
      else Some (''unsupported hash algorithm: '' @ algorithm))"

definition URLHash :: "digests \<Rightarrow> string \<Rightarrow> string" where
  "URLHash h url = EncodeToString (take 8 (array32 (Sum256 h (bytes_of_string url))))"

section \<open>Package cache: the cache directory layout\<close>

text \<open>
  What the process reads from its surroundings: the environment variables, the platform
  name \<open>runtime.GOOS\<close>, and the results of \<open>os.UserCacheDir\<close> and
  \<open>os.UserHomeDir\<close>. \<open>os.Getenv\<close> returns the empty string for an unset variable.
\<close>

record osenv =
  getenv :: "string \<Rightarrow> string"
  GOOS :: string
  UserCacheDir :: "error + string"
  UserHomeDir :: "error + string"

definition getFallbackCacheDir :: "osenv \<Rightarrow> error + string" where
  "getFallbackCacheDir env =
     (case UserHomeDir env of
        Inl err \<Rightarrow> Inl err
      | Inr homeDir \<Rightarrow>
          if GOOS env = ''darwin'' then Inr (Join [homeDir, ''Library'', ''Caches''])
          else if GOOS env = ''linux'' then
            (let xdgCache = getenv env ''XDG_CACHE_HOME''
             in if xdgCache \<noteq> [] then Inr xdgCache else Inr (Join [homeDir, ''.cache'']))
          else if GOOS env = ''windows'' then
            (let localAppData = getenv env ''LOCALAPPDATA''
             in if localAppData \<noteq> [] then Inr localAppData
                else Inr (Join [homeDir, ''AppData'', ''Local'']))
          else Inr (Join [homeDir, ''.cache'']))"

definition GetCacheDir :: "osenv \<Rightarrow> error + string" where
  "GetCacheDir env =
     (let cacheDir = getenv env ''SKILLS_CACHE_DIR''
      in if cacheDir \<noteq> [] then Inr cacheDir
         else
           (case UserCacheDir env of
              Inr dir \<Rightarrow> Inr (Join [dir, ''sleuth-sync''])
            | Inl _ \<Rightarrow>
                (case getFallbackCacheDir env of
                   Inl err \<Rightarrow> Inl (''failed to determine cache directory: '' @ err)
                 | Inr dir \<Rightarrow> Inr (Join [dir, ''sleuth-sync'']))))"

definition GetArtifactCacheDir :: "osenv \<Rightarrow> error + string" where
  "GetArtifactCacheDir env =
     (case GetCacheDir env of
        Inl err \<Rightarrow> Inl err
      | Inr cacheDir \<Rightarrow> Inr (Join [cacheDir, ''artifacts'']))"

definition GetGitReposCacheDir :: "osenv \<Rightarrow> error + string" where
  "GetGitReposCacheDir env =
     (case GetCacheDir env of
        Inl err \<Rightarrow> Inl err
      | Inr cacheDir \<Rightarrow> Inr (Join [cacheDir, ''git-repos'']))"

definition GetLockFileCacheDir :: "osenv \<Rightarrow> error + string" where
  "GetLockFileCacheDir env =
     (case GetCacheDir env of
        Inl err \<Rightarrow> Inl err
      | Inr cacheDir \<Rightarrow> Inr (Join [cacheDir, ''lockfiles'']))"

definition GetArtifactCachePath :: "osenv \<Rightarrow> string \<Rightarrow> string \<Rightarrow> error + string" where
  "GetArtifactCachePath env name version =
     (case GetArtifactCacheDir env of
        Inl err \<Rightarrow> Inl err
      | Inr artifactCacheDir \<Rightarrow>
          let safeName = Base (Clean name)
          in Inr (Join [artifactCacheDir, safeName, version @ ''.zip'']))"

definition GetGitRepoCachePath :: "osenv \<Rightarrow> digests \<Rightarrow> string \<Rightarrow> error + string" where
  "GetGitRepoCachePath env h repoURL =
     (case GetGitReposCacheDir env of
        Inl err \<Rightarrow> Inl err
      | Inr gitReposDir \<Rightarrow>
          let urlHash = URLHash h repoURL
          in Inr (Join [gitReposDir, urlHash]))"

text \<open>Sample surroundings for the closed theorems below.\<close>

definition sample_env :: osenv where
  "sample_env =
     \<lparr>getenv = (\<lambda>k. if k = ''SKILLS_CACHE_DIR'' then ''/c'' else []),
      GOOS = ''linux'',
      UserCacheDir = Inr ''/home/u/.cache'',
      UserHomeDir = Inr ''/home/u''\<rparr>"

definition sample_digests :: digests where
  "sample_digests =
     \<lparr>Sum256 = (\<lambda>bs. 0xdeadbeef00000000000000000000000000000000000000000000000000000000
                        + of_nat (length bs)),
      Sum512 = (\<lambda>bs. of_nat (length bs))\<rparr>"

section \<open>Package github: tree URLs\<close>

record TreeURL =
  Owner :: string
  Repo :: string
  Ref :: string
  Path :: string

text \<open>
  The pattern
  \<^verbatim>\<open>^https?://github\.com/([^/]+)/([^/]+)/tree/([^/]+)(?:/(.*))?$\<close>
  read left to right. It is anchored at both ends. Each group \<^verbatim>\<open>([^/]+)\<close> is followed
  by a slash or by the end of the text, so it takes the longest non-empty run of bytes
  other than the slash (\<open>segment\<close>); the optional \<open>s\<close> has to be taken when it is there,
  since \<^verbatim>\<open>://\<close> does not start with it; and the dot of the last group matches every
  byte but the newline. \<open>treeURLPattern\<close> is \<open>FindStringSubmatch\<close>: the whole match and
  the four groups, a group that takes no part being empty.
\<close>

definition strip_prefix :: "string \<Rightarrow> string \<Rightarrow> string option" where
  "strip_prefix pre s =
     (if take (length pre) s = pre then Some (drop (length pre) s) else None)"

definition segment :: "string \<Rightarrow> (string \<times> string) option" where
  "segment s =
     (let m = takeWhile (\<lambda>c. c \<noteq> CHR ''/'') s
      in if m = [] then None else Some (m, dropWhile (\<lambda>c. c \<noteq> CHR ''/'') s))"

definition treeURLPattern :: "string \<Rightarrow> string list option" where
  "treeURLPattern s =
     (case strip_prefix ''http'' s of
        None \<Rightarrow> None
      | Some s1 \<Rightarrow>
     (case strip_prefix ''://github.com/''
             (case strip_prefix ''s'' s1 of Some r \<Rightarrow> r | None \<Rightarrow> s1) of
        None \<Rightarrow> None
      | Some s3 \<Rightarrow>
     (case segment s3 of
        None \<Rightarrow> None
      | Some (owner, s4) \<Rightarrow>
     (case strip_prefix ''/'' s4 of
        None \<Rightarrow> None
      | Some s5 \<Rightarrow>
     (case segment s5 of
        None \<Rightarrow> None
      | Some (repo, s6) \<Rightarrow>
     (case strip_prefix ''/tree/'' s6 of
        None \<Rightarrow> None
      | Some s7 \<Rightarrow>
     (case segment s7 of
        None \<Rightarrow> None
      | Some (ref, s8) \<Rightarrow>
          if s8 = [] then Some [s, owner, repo, ref, []]
          else
            (case strip_prefix ''/'' s8 of
               None \<Rightarrow> None
             | Some path \<Rightarrow>
                 if CHR 0x0A \<in> set path then None
                 else Some [s, owner, repo, ref, path]))))))))"

definition ParseTreeURL :: "string \<Rightarrow> TreeURL option" where
  "ParseTreeURL url =
     (case treeURLPattern (TrimSuffix url ''/'') of
        None \<Rightarrow> None
      | Some matches \<Rightarrow>
          Some \<lparr>Owner = matches ! 1, Repo = matches ! 2, Ref = matches ! 3,
                Path = matches ! 4\<rparr>)"

definition TreeURL_String :: "TreeURL \<Rightarrow> string" where
  "TreeURL_String t =
     (let url = ''https://github.com/'' @ Owner t @ ''/'' @ Repo t @ ''/tree/'' @ Ref t
      in if Path t \<noteq> [] then url @ ''/'' @ Path t else url)"

section \<open>The file system\<close>

text \<open>
  The part of the operating system the code works on. A path names a node through its
  cleaned form (paths are resolved lexically; symbolic links are not modelled); the root
  and the working directory always exist. A path in \<open>readonly\<close> cannot be created,
  written or removed (the permission errors of the system calls), and \<open>nospace\<close> makes
  every write to a file fail.
\<close>

datatype node = DirNode | FileNode string

record filesystem =
  nodes :: "string \<rightharpoonup> node"
  readonly :: "string set"
  nospace :: bool

definition lookup :: "filesystem \<Rightarrow> string \<Rightarrow> node option" where
  "lookup fs p = (if p = ''/'' \<or> p = ''.'' then Some DirNode else nodes fs p)"

definition stat :: "filesystem \<Rightarrow> string \<Rightarrow> node option" where
  \<comment> \<open>\<open>os.Stat\<close>; \<open>None\<close> is its error\<close>
  "stat fs path = lookup fs (Clean path)"

definition Mkdir :: "filesystem \<Rightarrow> string \<Rightarrow> filesystem \<times> error option" where
  \<comment> \<open>\<open>os.Mkdir\<close>: one directory, whose parent has to be there\<close>
  "Mkdir fs path =
     (let p = Clean path
      in if lookup fs p \<noteq> None then (fs, Some (''mkdir '' @ path @ '': file exists''))
         else
           (case lookup fs (Dir p) of
              None \<Rightarrow> (fs, Some (''mkdir '' @ path @ '': no such file or directory''))
            | Some (FileNode _) \<Rightarrow> (fs, Some (''mkdir '' @ path @ '': not a directory''))
            | Some DirNode \<Rightarrow>
                if p \<in> readonly fs
                then (fs, Some (''mkdir '' @ path @ '': permission denied''))
                else (fs\<lparr>nodes := (nodes fs)(p \<mapsto> DirNode)\<rparr>, None)))"

definition parent_prefix :: "string \<Rightarrow> string" where
  \<comment> \<open>the path without its trailing separators and its last element\<close>
  "parent_prefix path =
     rev (dropWhile (\<lambda>c. c \<noteq> CHR ''/'') (dropWhile (\<lambda>c. c = CHR ''/'') (rev path)))"

lemma length_parent_prefix:
  assumes "parent_prefix path \<noteq> []"
  shows "length (parent_prefix path) < length path"
proof (cases "rev path")
  case Nil
  then show ?thesis using assms by (simp add: parent_prefix_def)
next
  case (Cons c cs)
  have le: "\<And>P (xs :: string). length (dropWhile P xs) \<le> length xs"
    by (simp add: length_dropWhile_le)
  have "length (dropWhile (\<lambda>c. c \<noteq> CHR ''/'') (dropWhile (\<lambda>c. c = CHR ''/'') (c # cs)))
      \<le> length cs"
  proof (cases "c = CHR ''/''")
    case True
    then show ?thesis
      using le [of "\<lambda>c. c \<noteq> CHR ''/''" "dropWhile (\<lambda>c. c = CHR ''/'') cs"]
        le [of "\<lambda>c. c = CHR ''/''" cs]
      by simp
  next
    case False
    then show ?thesis using le [of "\<lambda>c. c \<noteq> CHR ''/''" cs] by simp
  qed
  moreover have "length path = Suc (length cs)"
    using Cons by (metis length_Cons length_rev)
  ultimately show ?thesis using Cons by (simp add: parent_prefix_def)
qed

function MkdirAll :: "filesystem \<Rightarrow> string \<Rightarrow> filesystem \<times> error option" where
  \<comment> \<open>\<open>os.MkdirAll\<close>: the directory and every missing parent\<close>
  "MkdirAll fs path =
     (case stat fs path of
        Some DirNode \<Rightarrow> (fs, None)
      | Some (FileNode _) \<Rightarrow> (fs, Some (''mkdir '' @ path @ '': not a directory''))
      | None \<Rightarrow>
          (case (if parent_prefix path \<noteq> [] then MkdirAll fs (parent_prefix path)
                 else (fs, None)) of
             (fs1, Some err) \<Rightarrow> (fs1, Some err)
           | (fs1, None) \<Rightarrow>
               (case Mkdir fs1 path of
                  (fs2, None) \<Rightarrow> (fs2, None)
                | (fs2, Some err) \<Rightarrow>
                    if stat fs2 path = Some DirNode then (fs2, None)
                    else (fs2, Some err))))"
  by pat_completeness auto
termination
  by (relation "measure (\<lambda>(fs, path). length path)") (auto simp: length_parent_prefix)

declare MkdirAll.simps [simp del]

definition endsWithDot :: "string \<Rightarrow> bool" where
  "endsWithDot path =
     (path = ''.'' \<or>
      (length path \<ge> 2 \<and> last path = CHR ''.'' \<and> last (butlast path) = CHR ''/''))"

definition within :: "string \<Rightarrow> string \<Rightarrow> bool" where
  \<comment> \<open>\<open>within p k\<close>: the cleaned path \<open>k\<close> is \<open>p\<close> or lies below it, read lexically\<close>
  "within p k =
     (k = p \<or>
      (if p = ''/'' then take 1 k = ''/''
       else if p = ''.'' then k \<noteq> [] \<and> take 1 k \<noteq> ''/'' \<and> k \<noteq> ''..'' \<and> take 3 k \<noteq> ''../''
       else take (length p + 1) k = p @ ''/''))"

definition rmdir_refused :: "string \<Rightarrow> string option" where
  \<comment> \<open>the directory itself cannot be removed when the last element of the path is
      \<open>.\<close>, \<open>..\<close> or the root: \<open>rmdir\<close> fails with EINVAL, ENOTEMPTY or EBUSY\<close>
  "rmdir_refused path =
     (if Base path = ''.'' then Some ''invalid argument''
      else if Base path = ''..'' then Some ''directory not empty''
      else if Base path = ''/'' then Some ''device or resource busy''
      else None)"

definition RemoveAll :: "filesystem \<Rightarrow> string \<Rightarrow> filesystem \<times> error option" where
  \<comment> \<open>\<open>os.RemoveAll\<close>: removes what it can of the tree at the path and returns the
      error it met; nil when nothing is there\<close>
  "RemoveAll fs path =
     (if path = [] then (fs, None)
      else if endsWithDot path
      then (fs, Some (''RemoveAll '' @ path @ '': invalid argument''))
      else
        let p = Clean path;
            stuck = (\<lambda>k. (rmdir_refused path \<noteq> None \<and> k = p) \<or>
                         (\<exists>r \<in> readonly fs. nodes fs r \<noteq> None \<and> within p r \<and> within k r));
            fs' = fs\<lparr>nodes := (\<lambda>k. if within p k \<and> \<not> stuck k then None else nodes fs k)\<rparr>
        in if \<exists>r \<in> readonly fs. nodes fs r \<noteq> None \<and> within p r
           then (fs', Some (''unlinkat '' @ path @ '': permission denied''))
           else
             (case rmdir_refused path of
                Some errno \<Rightarrow> (fs', Some (''unlinkat '' @ path @ '': '' @ errno))
              | None \<Rightarrow> (fs', None)))"




text \<open>
  Modelled from the spec: \<open>utils.EnsureDir\<close> and \<open>utils.IsDirectory\<close> are not among the
  sources. \<open>EnsureDir\<close> is the idempotent directory creation the cache manager exposes
  (\<open>os.MkdirAll\<close>), and \<open>IsDirectory\<close> tells whether the path is an existing directory.
\<close>

definition EnsureDir :: "filesystem \<Rightarrow> string \<Rightarrow> filesystem \<times> error option" where
  "EnsureDir fs path = MkdirAll fs path"

definition IsDirectory :: "filesystem \<Rightarrow> string \<Rightarrow> bool" where
  "IsDirectory fs path = (stat fs path = Some DirNode)"

definition empty_fs :: filesystem where
  "empty_fs = \<lparr>nodes = Map.empty, readonly = {}, nospace = False\<rparr>"

subsection \<open>Creating the cache directories\<close>

fun ensure_each ::
  "osenv \<Rightarrow> (osenv \<Rightarrow> error + string) list \<Rightarrow> filesystem \<Rightarrow> filesystem \<times> error option" where
  \<comment> \<open>the loop of \<open>EnsureCacheDirs\<close> over the directory functions\<close>
  "ensure_each env [] fs = (fs, None)"
| "ensure_each env (dirFunc # dirs) fs =
     (case dirFunc env of
        Inl err \<Rightarrow> (fs, Some err)
      | Inr dir \<Rightarrow>
          (case EnsureDir fs dir of
             (fs', Some err) \<Rightarrow>
               (fs', Some (''failed to create cache directory '' @ dir @ '': '' @ err))
           | (fs', None) \<Rightarrow> ensure_each env dirs fs'))"

definition EnsureCacheDirs :: "osenv \<Rightarrow> filesystem \<Rightarrow> filesystem \<times> error option" where
  "EnsureCacheDirs env fs =
     ensure_each env
       [GetCacheDir, GetArtifactCacheDir, GetGitReposCacheDir, GetLockFileCacheDir] fs"

section \<open>Package handlers: the agent handler\<close>

text \<open>
  The handler reads three fields of the artifact's metadata. The zip helpers of package
  utils, \<open>containsFile\<close> and package metadata are code of the repository that is not
  among the sources: they are parameters, collected in \<open>zip_library\<close>. The helpers that
  only take the zip bytes cannot touch the file system; \<open>ExtractZip\<close> writes below the
  destination it is given.
\<close>

record AgentConfig =
  PromptFile :: string

record Metadata =
  Artifact_Name :: string
  Artifact_Type :: string
  Agent :: "AgentConfig option"

record zip_library =
  ListZipFiles :: "byte list \<Rightarrow> error + string list"
  ReadZipFile :: "byte list \<Rightarrow> string \<Rightarrow> error + byte list"
  containsFile :: "string list \<Rightarrow> string \<Rightarrow> bool"
  metadata_Parse :: "byte list \<Rightarrow> error + Metadata"
  ValidateWithFiles :: "Metadata \<Rightarrow> string list \<Rightarrow> error option"
  ExtractZip :: "filesystem \<Rightarrow> byte list \<Rightarrow> string \<Rightarrow> filesystem \<times> error option"

record AgentHandler =
  metadata :: Metadata

definition GetInstallPath :: "AgentHandler \<Rightarrow> string" where
  "GetInstallPath h = Join [''agents'', Artifact_Name (metadata h)]"

definition Validate :: "zip_library \<Rightarrow> byte list \<Rightarrow> error option" where
  "Validate lib zipData =
     (case ListZipFiles lib zipData of
        Inl err \<Rightarrow> Some (''failed to list zip files: '' @ err)
      | Inr files \<Rightarrow>
          if \<not> containsFile lib files ''metadata.toml''
          then Some ''metadata.toml not found in zip''
          else
            (case ReadZipFile lib zipData ''metadata.toml'' of
               Inl err \<Rightarrow> Some (''failed to read metadata.toml: '' @ err)
             | Inr metadataBytes \<Rightarrow>
                 (case metadata_Parse lib metadataBytes of
                    Inl err \<Rightarrow> Some (''failed to parse metadata: '' @ err)
                  | Inr meta \<Rightarrow>
                      (case ValidateWithFiles lib meta files of
                         Some err \<Rightarrow> Some (''metadata validation failed: '' @ err)
                       | None \<Rightarrow>
                           if Artifact_Type meta \<noteq> ''agent''
                           then Some (''artifact type mismatch: expected agent, got ''
                                        @ Artifact_Type meta)
                           else
                             (case Agent meta of
                                None \<Rightarrow> Some ''[agent] section missing in metadata''
                              | Some agent \<Rightarrow>
                                  if \<not> containsFile lib files (PromptFile agent)
                                  then Some (''prompt file not found in zip: ''
                                               @ PromptFile agent)
                                  else None)))))"

definition Install ::
  "zip_library \<Rightarrow> AgentHandler \<Rightarrow> filesystem \<Rightarrow> byte list \<Rightarrow> string
     \<Rightarrow> filesystem \<times> error option" where
  "Install lib h fs zipData targetBase =
     (case Validate lib zipData of
        Some err \<Rightarrow> (fs, Some (''validation failed: '' @ err))
      | None \<Rightarrow>
          let installPath = Join [targetBase, GetInstallPath h]
          in case (if IsDirectory fs installPath then RemoveAll fs installPath
                   else (fs, None)) of
               (fs1, Some err) \<Rightarrow>
                 (fs1, Some (''failed to remove existing installation: '' @ err))
             | (fs1, None) \<Rightarrow>
                 (case EnsureDir fs1 installPath of
                    (fs2, Some err) \<Rightarrow>
                      (fs2, Some (''failed to create installation directory: '' @ err))
                  | (fs2, None) \<Rightarrow>
                      (case ExtractZip lib fs2 zipData installPath of
                         (fs3, Some err) \<Rightarrow> (fs3, Some (''failed to extract zip: '' @ err))
                       | (fs3, None) \<Rightarrow> (fs3, None))))"


text \<open>
  A sample library for the closed theorems: every non-empty byte sequence is an archive
  that holds \<open>metadata.toml\<close> and \<open>AGENT.md\<close>, and the empty byte sequence is no
  archive.
\<close>

definition sample_lib :: zip_library where
  "sample_lib =
     \<lparr>ListZipFiles = (\<lambda>z. if z = [] then Inl ''zip: not a valid zip file''
                            else Inr [''metadata.toml'', ''AGENT.md'']),
      ReadZipFile = (\<lambda>z name. Inr z),
      containsFile = (\<lambda>files name. name \<in> set files),
      metadata_Parse = (\<lambda>b. Inr \<lparr>Artifact_Name = ''reviewer'', Artifact_Type = ''agent'',
                                  Agent = Some \<lparr>PromptFile = ''AGENT.md''\<rparr>\<rparr>),
      ValidateWithFiles = (\<lambda>meta files. None),
      ExtractZip = (\<lambda>fs z dest.
        (fs\<lparr>nodes := (nodes fs)(Join [dest, ''AGENT.md''] \<mapsto> FileNode ''prompt'')\<rparr>, None))\<rparr>"

definition sample_handler :: AgentHandler where
  "sample_handler =
     \<lparr>metadata = \<lparr>Artifact_Name = ''reviewer'', Artifact_Type = ''agent'',
                   Agent = Some \<lparr>PromptFile = ''AGENT.md''\<rparr>\<rparr>\<rparr>"

definition installed_fs :: filesystem where
  "installed_fs =
     \<lparr>nodes = [''/home/u/.claude'' \<mapsto> DirNode,
               ''/home/u/.claude/agents'' \<mapsto> DirNode,
               ''/home/u/.claude/agents/reviewer'' \<mapsto> DirNode,
               ''/home/u/.claude/agents/reviewer/AGENT.md'' \<mapsto> FileNode ''prompt''],
      readonly = {}, nospace = False\<rparr>"

section \<open>Package cache: the session cache\<close>

record SessionCache =
  filePath :: string

definition NewSessionCache :: "osenv \<Rightarrow> string \<Rightarrow> error + SessionCache" where
  "NewSessionCache env clientID =
     (case GetCacheDir env of
        Inl err \<Rightarrow> Inl (''failed to get cache dir: '' @ err)
      | Inr cacheDir \<Rightarrow> Inr \<lparr>filePath = Join [cacheDir, clientID @ ''-sessions'']\<rparr>)"











section \<open>Package commands: the install command\<close>

text \<open>
  What a command run can see and change: the standard output and the file system.
\<close>

record world =
  stdout :: string
  files :: filesystem

definition runInstall :: "world \<Rightarrow> string list \<Rightarrow> world \<times> error option" where
  "runInstall w args =
     (w\<lparr>stdout := stdout w @ ''Install command - To be implemented'' @ [CHR 0x0A]\<rparr>,
      Some ''not yet implemented'')"

definition sample_lock :: string where
  "sample_lock =
     ''lock-version = \"1.0\"'' @ [CHR 0x0A] @
     ''version = \"local-dev\"'' @ [CHR 0x0A] @
     ''created-by = \"manual\"'' @ [CHR 0x0A]"

definition lock_world :: world where
  "lock_world =
     \<lparr>stdout = [],
      files = \<lparr>nodes = [''sleuth.lock'' \<mapsto> FileNode sample_lock],
               readonly = {}, nospace = False\<rparr>\<rparr>"

section \<open>The lock model\<close>

text \<open>
  Modelled from the spec: the lock-file package (the LockFile value, its parser and its
  serializer) is not among the sources. The data model is that of the specification's
  section 3; the structured format is that of its section 6, taken as a document of
  tables, arrays, strings and integers (the document's concrete syntax is not modelled);
  the parser's errors are those of section 4.1.
\<close>

datatype ArtifactType = Skill | AgentArtifact | Command | Hook | Mcp | McpRemote

datatype Source =
    HttpSource string "(string \<times> string) list" "int option" "string option"
      \<comment> \<open>url, hashes (algorithm, hex digest), size, uploaded-at\<close>
  | GitSource string string "string option"
      \<comment> \<open>url, ref, subdirectory\<close>
  | PathSource string

datatype Scope = GlobalScope | RepoScope string | PathScope string string

record DependencyRef =
  dep_name :: string
  dep_version :: "string option"

record Artifact =
  art_name :: string
  art_version :: string
  art_type :: ArtifactType
  art_clients :: "string list option"
  art_source :: Source
  art_scope :: "Scope option"
  art_dependencies :: "DependencyRef list"

record LockFile =
  lock_version :: string
  instance_version :: string
  created_by :: string
  artifacts :: "Artifact list"

datatype doc = VStr string | VInt int | VList "doc list" | VTable "(string \<times> doc) list"

type_synonym table = "(string \<times> doc) list"

datatype lock_error = ParseError string | ValidationError string

subsection \<open>Serialization\<close>

definition optional :: "string \<Rightarrow> ('a \<Rightarrow> doc) \<Rightarrow> 'a option \<Rightarrow> table" where
  "optional key f v = (case v of None \<Rightarrow> [] | Some x \<Rightarrow> [(key, f x)])"

fun type_name :: "ArtifactType \<Rightarrow> string" where
  "type_name Skill = ''skill''"
| "type_name AgentArtifact = ''agent''"
| "type_name Command = ''command''"
| "type_name Hook = ''hook''"
| "type_name Mcp = ''mcp''"
| "type_name McpRemote = ''mcp-remote''"

definition serialize_dependency :: "DependencyRef \<Rightarrow> doc" where
  "serialize_dependency d =
     VTable ((''name'', VStr (dep_name d)) # optional ''version'' VStr (dep_version d))"

fun serialize_source :: "Source \<Rightarrow> table" where
  "serialize_source (HttpSource url hashes sz uploadedAt) =
     [(''source-http'',
       VTable ([(''url'', VStr url),
                (''hashes'', VTable (map (\<lambda>(alg, digest). (alg, VStr digest)) hashes))]
               @ optional ''size'' VInt sz
               @ optional ''uploaded-at'' VStr uploadedAt))]"
| "serialize_source (GitSource url ref subdirectory) =
     [(''source-git'',
       VTable ([(''url'', VStr url), (''ref'', VStr ref)]
               @ optional ''subdirectory'' VStr subdirectory))]"
| "serialize_source (PathSource path) =
     [(''source-path'', VTable [(''path'', VStr path)])]"

fun serialize_scope :: "Scope option \<Rightarrow> table" where
  "serialize_scope None = []"
| "serialize_scope (Some GlobalScope) = [(''scope'', VStr ''global'')]"
| "serialize_scope (Some (RepoScope url)) = [(''repo'', VStr url)]"
| "serialize_scope (Some (PathScope url path)) = [(''repo'', VStr url), (''path'', VStr path)]"

definition artifact_table :: "Artifact \<Rightarrow> table" where
  "artifact_table a =
     [(''name'', VStr (art_name a)),
      (''version'', VStr (art_version a)),
      (''type'', VStr (type_name (art_type a)))]
     @ optional ''clients'' (\<lambda>cs. VList (map VStr cs)) (art_clients a)
     @ serialize_source (art_source a)
     @ serialize_scope (art_scope a)
     @ (if art_dependencies a = [] then []
        else [(''dependencies'', VList (map serialize_dependency (art_dependencies a)))])"

definition serialize_artifact :: "Artifact \<Rightarrow> doc" where
  "serialize_artifact a = VTable (artifact_table a)"

definition serialize :: "LockFile \<Rightarrow> table" where
  "serialize x =
     [(''lock-version'', VStr (lock_version x)),
      (''version'', VStr (instance_version x)),
      (''created-by'', VStr (created_by x))]
     @ (if artifacts x = [] then []
        else [(''artifacts'', VList (map serialize_artifact (artifacts x)))])"

subsection \<open>Parsing\<close>

definition and_then :: "lock_error + 'a \<Rightarrow> ('a \<Rightarrow> lock_error + 'b) \<Rightarrow> lock_error + 'b" where
  "and_then r f = (case r of Inl e \<Rightarrow> Inl e | Inr x \<Rightarrow> f x)"

fun each :: "('a \<Rightarrow> lock_error + 'b) \<Rightarrow> 'a list \<Rightarrow> lock_error + 'b list" where
  "each f [] = Inr []"
| "each f (x # xs) =
     and_then (f x) (\<lambda>y. and_then (each f xs) (\<lambda>ys. Inr (y # ys)))"

definition as_string :: "string \<Rightarrow> doc \<Rightarrow> lock_error + string" where
  "as_string key v =
     (case v of VStr s \<Rightarrow> Inr s | _ \<Rightarrow> Inl (ParseError (key @ '': not a string'')))"

definition required_string :: "table \<Rightarrow> string \<Rightarrow> lock_error + string" where
  "required_string t key =
     (case map_of t key of
        None \<Rightarrow> Inl (ValidationError (''missing required field '' @ key))
      | Some v \<Rightarrow> as_string key v)"

definition optional_string :: "table \<Rightarrow> string \<Rightarrow> lock_error + string option" where
  "optional_string t key =
     (case map_of t key of
        None \<Rightarrow> Inr None
      | Some v \<Rightarrow> and_then (as_string key v) (\<lambda>s. Inr (Some s)))"

definition optional_int :: "table \<Rightarrow> string \<Rightarrow> lock_error + int option" where
  "optional_int t key =
     (case map_of t key of
        None \<Rightarrow> Inr None
      | Some (VInt n) \<Rightarrow> Inr (Some n)
      | Some _ \<Rightarrow> Inl (ParseError (key @ '': not an integer'')))"

definition parse_type :: "string \<Rightarrow> lock_error + ArtifactType" where
  "parse_type s =
     (if s = ''skill'' then Inr Skill
      else if s = ''agent'' then Inr AgentArtifact
      else if s = ''command'' then Inr Command
      else if s = ''hook'' then Inr Hook
      else if s = ''mcp'' then Inr Mcp
      else if s = ''mcp-remote'' then Inr McpRemote
      else Inl (ValidationError (''unknown artifact type '' @ s)))"

definition parse_dependency :: "doc \<Rightarrow> lock_error + DependencyRef" where
  "parse_dependency v =
     (case v of
        VTable t \<Rightarrow>
          and_then (required_string t ''name'') (\<lambda>n.
          and_then (optional_string t ''version'') (\<lambda>ver.
          Inr \<lparr>dep_name = n, dep_version = ver\<rparr>))
      | _ \<Rightarrow> Inl (ParseError ''dependency: not a table''))"

definition is_commit_sha :: "string \<Rightarrow> bool" where
  \<comment> \<open>a full commit SHA: 40 hex digits\<close>
  "is_commit_sha ref =
     (length ref = 40 \<and> (\<forall>c \<in> set ref. c \<in> set ''0123456789abcdefABCDEF''))"

definition parse_hashes :: "doc \<Rightarrow> lock_error + (string \<times> string) list" where
  "parse_hashes v =
     (case v of
        VTable t \<Rightarrow>
          and_then (each (\<lambda>(alg, d). and_then (as_string alg d) (\<lambda>s. Inr (alg, s))) t)
            (\<lambda>hashes.
               if hashes = [] then Inl (ValidationError ''source-http: hashes are required'')
               else if \<not> distinct (map fst hashes)
               then Inl (ParseError ''hashes: duplicate key'')
               else Inr hashes)
      | _ \<Rightarrow> Inl (ParseError ''hashes: not a table''))"

definition parse_http :: "doc \<Rightarrow> lock_error + Source" where
  "parse_http v =
     (case v of
        VTable t \<Rightarrow>
          and_then (required_string t ''url'') (\<lambda>url.
          and_then (case map_of t ''hashes'' of
                      None \<Rightarrow> Inl (ValidationError ''source-http: hashes are required'')
                    | Some h \<Rightarrow> parse_hashes h) (\<lambda>hashes.
          and_then (optional_int t ''size'') (\<lambda>sz.
          and_then (optional_string t ''uploaded-at'') (\<lambda>uploadedAt.
          Inr (HttpSource url hashes sz uploadedAt)))))
      | _ \<Rightarrow> Inl (ParseError ''source-http: not a table''))"

definition parse_git :: "doc \<Rightarrow> lock_error + Source" where
  "parse_git v =
     (case v of
        VTable t \<Rightarrow>
          and_then (required_string t ''url'') (\<lambda>url.
          and_then (required_string t ''ref'') (\<lambda>ref.
          and_then (optional_string t ''subdirectory'') (\<lambda>subdirectory.
          if is_commit_sha ref then Inr (GitSource url ref subdirectory)
          else Inl (ValidationError ''source-git: ref is not a full commit SHA''))))
      | _ \<Rightarrow> Inl (ParseError ''source-git: not a table''))"

definition parse_path :: "doc \<Rightarrow> lock_error + Source" where
  "parse_path v =
     (case v of
        VTable t \<Rightarrow> and_then (required_string t ''path'') (\<lambda>p. Inr (PathSource p))
      | _ \<Rightarrow> Inl (ParseError ''source-path: not a table''))"

definition choose_source :: "doc option \<Rightarrow> doc option \<Rightarrow> doc option \<Rightarrow> lock_error + Source" where
  \<comment> \<open>exactly one of the three source tables\<close>
  "choose_source h g p =
     (case h of
        Some hv \<Rightarrow>
          if g = None \<and> p = None then parse_http hv
          else Inl (ValidationError ''multiple populated source variants'')
      | None \<Rightarrow>
          (case g of
             Some gv \<Rightarrow>
               if p = None then parse_git gv
               else Inl (ValidationError ''multiple populated source variants'')
           | None \<Rightarrow>
               (case p of
                  Some pv \<Rightarrow> parse_path pv
                | None \<Rightarrow> Inl (ValidationError ''missing source''))))"

definition parse_source :: "table \<Rightarrow> lock_error + Source" where
  "parse_source t =
     choose_source (map_of t ''source-http'') (map_of t ''source-git'')
       (map_of t ''source-path'')"

definition choose_scope ::
  "doc option \<Rightarrow> doc option \<Rightarrow> doc option \<Rightarrow> lock_error + Scope option" where
  \<comment> \<open>the fields \<open>scope\<close>, \<open>repo\<close> and \<open>path\<close>\<close>
  "choose_scope s r p =
     (case s of
        Some sv \<Rightarrow>
          and_then (as_string ''scope'' sv) (\<lambda>name.
            if r \<noteq> None \<or> p \<noteq> None
            then Inl (ValidationError ''scope together with repo or path'')
            else if name = ''global'' then Inr (Some GlobalScope)
            else Inl (ValidationError (''unknown scope '' @ name)))
      | None \<Rightarrow>
          (case r of
             None \<Rightarrow>
               (case p of
                  None \<Rightarrow> Inr None
                | Some pv \<Rightarrow> Inl (ValidationError ''path scope without a repo scope''))
           | Some rv \<Rightarrow>
               and_then (as_string ''repo'' rv) (\<lambda>url.
                 case p of
                   None \<Rightarrow> Inr (Some (RepoScope url))
                 | Some pv \<Rightarrow>
                     and_then (as_string ''path'' pv) (\<lambda>path.
                       Inr (Some (PathScope url path))))))"

definition parse_scope :: "table \<Rightarrow> lock_error + Scope option" where
  "parse_scope t = choose_scope (map_of t ''scope'') (map_of t ''repo'') (map_of t ''path'')"

definition parse_clients :: "table \<Rightarrow> lock_error + string list option" where
  "parse_clients t =
     (case map_of t ''clients'' of
        None \<Rightarrow> Inr None
      | Some (VList vs) \<Rightarrow> and_then (each (as_string ''clients'') vs) (\<lambda>cs. Inr (Some cs))
      | Some _ \<Rightarrow> Inl (ParseError ''clients: not an array''))"

definition parse_dependencies :: "table \<Rightarrow> lock_error + DependencyRef list" where
  "parse_dependencies t =
     (case map_of t ''dependencies'' of
        None \<Rightarrow> Inr []
      | Some (VList vs) \<Rightarrow> each parse_dependency vs
      | Some _ \<Rightarrow> Inl (ParseError ''dependencies: not an array''))"

definition parse_artifact :: "doc \<Rightarrow> lock_error + Artifact" where
  "parse_artifact v =
     (case v of
        VTable t \<Rightarrow>
          and_then (required_string t ''name'') (\<lambda>n.
          and_then (required_string t ''version'') (\<lambda>ver.
          and_then (and_then (required_string t ''type'') parse_type) (\<lambda>ty.
          and_then (parse_clients t) (\<lambda>cs.
          and_then (parse_source t) (\<lambda>src.
          and_then (parse_scope t) (\<lambda>sc.
          and_then (parse_dependencies t) (\<lambda>deps.
          Inr \<lparr>art_name = n, art_version = ver, art_type = ty, art_clients = cs,
               art_source = src, art_scope = sc, art_dependencies = deps\<rparr>)))))))
      | _ \<Rightarrow> Inl (ParseError ''artifact: not a table''))"

definition major_version :: "string \<Rightarrow> string" where
  "major_version v = takeWhile (\<lambda>c. c \<noteq> CHR ''.'') v"

definition parse :: "table \<Rightarrow> lock_error + LockFile" where
  "parse t =
     and_then (required_string t ''lock-version'') (\<lambda>lv.
     if major_version lv \<noteq> ''1''
     then Inl (ValidationError (''unknown major format version '' @ lv))
     else
       and_then (required_string t ''version'') (\<lambda>iv.
       and_then (required_string t ''created-by'') (\<lambda>cb.
       and_then (case map_of t ''artifacts'' of
                   None \<Rightarrow> Inr []
                 | Some (VList vs) \<Rightarrow> each parse_artifact vs
                 | Some _ \<Rightarrow> Inl (ParseError ''artifacts: not an array'')) (\<lambda>arts.
       Inr \<lparr>lock_version = lv, instance_version = iv, created_by = cb,
            artifacts = arts\<rparr>))))"

subsection \<open>Valid values\<close>

fun valid_source :: "Source \<Rightarrow> bool" where
  "valid_source (HttpSource url hashes sz uploadedAt) =
     (hashes \<noteq> [] \<and> distinct (map fst hashes))"
| "valid_source (GitSource url ref subdirectory) = is_commit_sha ref"
| "valid_source (PathSource path) = True"

definition valid_lockfile :: "LockFile \<Rightarrow> bool" where
  "valid_lockfile x =
     (major_version (lock_version x) = ''1'' \<and>
      (\<forall>a \<in> set (artifacts x). valid_source (art_source a)))"

definition sample_lockfile :: LockFile where
  "sample_lockfile =
     \<lparr>lock_version = ''1.0'', instance_version = ''a3f8d92b1c4e5f6a7b8c9d0e1f2a3b4c'',
      created_by = ''sleuth-cli/0.1.0'',
      artifacts =
        [\<lparr>art_name = ''github-mcp'', art_version = ''1.2.3'', art_type = Mcp,
          art_clients = Some [''claude-code'', ''gemini''],
          art_source = HttpSource ''https://app.sleuth.io/github-mcp-1.2.3.zip''
            [(''sha256'',
              ''e3b0c44298fc1c149afbf4c8996fb92427ae41e4649b934ca495991b7852b855'')]
            (Some 125678) (Some ''2025-11-20T14:30:00Z''),
          art_scope = None, art_dependencies = []\<rparr>,
         \<lparr>art_name = ''custom-agent'', art_version = ''0.5.0'', art_type = AgentArtifact,
          art_clients = None,
          art_source = GitSource ''https://github.com/company/agents.git''
            ''a1b2c3d4e5f6789012345678901234567890abcd'' (Some ''dist''),
          art_scope = Some (PathScope ''https://github.com/company/backend'' ''services/api''),
          art_dependencies = [\<lparr>dep_name = ''github-mcp'', dep_version = Some ''1.2.3''\<rparr>,
                              \<lparr>dep_name = ''local-skill'', dep_version = None\<rparr>]\<rparr>,
         \<lparr>art_name = ''local-skill'', art_version = ''0.1.0-dev'', art_type = Skill,
          art_clients = None,
          art_source = PathSource ''~/dev/my-skills/local-skill.zip'',
          art_scope = Some GlobalScope, art_dependencies = []\<rparr>]\<rparr>"

section \<open>Verified properties\<close>

subsection \<open>Hex encoding and path elements\<close>

lemma EncodeToString_take: "EncodeToString (take n bs) = take (2 * n) (EncodeToString bs)"
proof (induction bs arbitrary: n)
  case Nil
  then show ?case by simp
next
  case (Cons b bs)
  then show ?case by (cases n) auto
qed

lemma length_EncodeToString: "length (EncodeToString bs) = 2 * length bs"
  by (induction bs) auto

lemma high_nibble_bound: "unat (drop_bit 4 (v::byte)) < 16"
proof -
  have "unat v < 256" using unsigned_less [of v, where 'a = nat] by simp
  moreover have "unat (drop_bit 4 v) = unat v div 16"
    by (simp add: drop_bit_eq_div unat_div)
  ultimately show ?thesis by simp
qed

lemma low_nibble_bound: "unat ((v::byte) AND 0x0f) < 16"
proof -
  have "unat (v AND 15) \<le> unat (15 :: byte)"
    by (rule word_and_le1 [THEN word_le_nat_alt [THEN iffD1]])
  then show ?thesis by simp
qed

lemma hextable_nth: "n < 16 \<Longrightarrow> hextable ! n \<in> set hextable"
  by (rule nth_mem) (simp add: hextable_def)

lemma EncodeToString_hex: "set (EncodeToString bs) \<subseteq> set hextable"
  by (induction bs) (auto simp: hextable_nth high_nibble_bound low_nibble_bound)

lemma length_array32: "length (array32 w) = 32"
  by (simp add: array32_def)

lemma split_on_single: "c \<notin> set s \<Longrightarrow> split_on c s = [s]"
  by (induction s) auto

lemma Clean_single:
  assumes "name \<noteq> []" and "CHR ''/'' \<notin> set name"
  shows "Clean name = name"
proof -
  have "hd name \<noteq> CHR ''/''" using assms by (cases name) auto
  then show ?thesis using assms
    by (auto simp: Clean_def split_on_single Let_def)
qed

lemma Base_single:
  assumes "name \<noteq> []" and "CHR ''/'' \<notin> set name"
  shows "Base name = name"
proof -
  have a: "dropWhile (\<lambda>c. c = CHR ''/'') (rev name) = rev name"
    using assms by (cases "rev name") auto
  have b: "takeWhile (\<lambda>c. c \<noteq> CHR ''/'') (rev name) = rev name"
    using assms by (auto intro!: takeWhile_eq_all_conv [THEN iffD2])
  show ?thesis using assms by (simp add: Base_def a b)
qed

subsection \<open>Integrity verification\<close>

text \<open>
  C1. For every byte sequence and every declared digest, under the algorithm sha256 or
  sha512, VerifyHash returns nil exactly when the hex digest computed over the bytes
  equals the declared digest; on any mismatch it returns the hash-mismatch error, so a
  caller that checks the error never hands mismatching bytes on.
\<close>

theorem VerifyHash_iff_digest_equal:
  assumes "algorithm = ''sha256'' \<or> algorithm = ''sha512''"
  shows "let actual = (if algorithm = ''sha256'' then ComputeSHA256 h data
                       else ComputeSHA512 h data)
         in (VerifyHash h data algorithm expected = None) = (actual = expected) \<and>
            (actual \<noteq> expected \<longrightarrow>
               VerifyHash h data algorithm expected =
                 Some (''hash mismatch: expected '' @ expected @ '', got '' @ actual))"
  using assms by (auto simp: VerifyHash_def Let_def)

theorem VerifyHash_iff_digest_equal_witness:
  "VerifyHash sample_digests [1, 2, 3] ''sha256''
     ''deadbeef00000000000000000000000000000000000000000000000000000003'' = None \<and>
   VerifyHash sample_digests [1, 2, 3] ''sha512''
     ''deadbeef00000000000000000000000000000000000000000000000000000003'' \<noteq> None"
proof -
  have d256: "ComputeSHA256 sample_digests [1, 2, 3] =
      ''deadbeef00000000000000000000000000000000000000000000000000000003''"
    by (simp add: ComputeSHA256_def sample_digests_def array32_def upt_rec hextable_def)
  have d512: "ComputeSHA512 sample_digests [1, 2, 3] \<noteq>
      ''deadbeef00000000000000000000000000000000000000000000000000000003''"
    using length_EncodeToString [of "array64 (Sum512 sample_digests [1, 2, 3])"]
    by (auto simp: ComputeSHA512_def array64_def)
  show ?thesis
    using VerifyHash_iff_digest_equal [of "''sha256''" sample_digests "[1, 2, 3]"
        "''deadbeef00000000000000000000000000000000000000000000000000000003''"]
      VerifyHash_iff_digest_equal [of "''sha512''" sample_digests "[1, 2, 3]"
        "''deadbeef00000000000000000000000000000000000000000000000000000003''"]
      d256 d512
    by (simp add: Let_def)
qed

subsection \<open>Cache paths\<close>

text \<open>
  C5, as the specification states it: the artifact cache path is the artifacts cache
  directory joined with name/version.zip, for every name. The code first reduces the name
  to the last element of its cleaned form, so for the name a/b the directory a is not
  part of the path.
\<close>

theorem GetArtifactCachePath_nested_name_counterexample:
  "GetArtifactCacheDir sample_env = Inr ''/c/artifacts'' \<and>
   GetArtifactCachePath sample_env ''a/b'' ''1.0'' = Inr ''/c/artifacts/b/1.0.zip'' \<and>
   Join [''/c/artifacts'', ''a/b'', ''1.0'' @ ''.zip''] = ''/c/artifacts/a/b/1.0.zip'' \<and>
   GetArtifactCachePath sample_env ''a/b'' ''1.0''
     \<noteq> Inr (Join [''/c/artifacts'', ''a/b'', ''1.0'' @ ''.zip''])"
  by (simp add: GetArtifactCachePath_def GetArtifactCacheDir_def GetCacheDir_def
      sample_env_def Join_def Clean_def Base_def)

text \<open>
  C5, amended. The artifact cache path is the artifacts cache directory joined with the
  sanitized name and version.zip, where the sanitized name is the last path element of
  the cleaned name. For every name that is not empty and has no path separator the
  sanitized name is the name itself, and the path is the artifacts cache directory joined
  with name/version.zip. When the cache directory cannot be determined, the error is
  returned.
\<close>

theorem GetArtifactCachePath_layout:
  "GetArtifactCachePath env name version =
     (case GetArtifactCacheDir env of
        Inl err \<Rightarrow> Inl err
      | Inr dir \<Rightarrow> Inr (Join [dir, Base (Clean name), version @ ''.zip''])) \<and>
   (name \<noteq> [] \<and> CHR ''/'' \<notin> set name \<longrightarrow>
      GetArtifactCachePath env name version =
        (case GetArtifactCacheDir env of
           Inl err \<Rightarrow> Inl err
         | Inr dir \<Rightarrow> Inr (Join [dir, name, version @ ''.zip''])))"
  by (simp add: GetArtifactCachePath_def Clean_single Base_single split: sum.splits)

theorem GetArtifactCachePath_layout_witness:
  "GetArtifactCachePath sample_env ''docs-write'' ''1.2.3''
     = Inr ''/c/artifacts/docs-write/1.2.3.zip''"
proof -
  have dir: "GetArtifactCacheDir sample_env = Inr ''/c/artifacts''"
    by (simp add: GetArtifactCacheDir_def GetCacheDir_def sample_env_def Join_def Clean_def)
  have path: "Join [''/c/artifacts'', ''docs-write'', ''1.2.3'' @ ''.zip'']
      = ''/c/artifacts/docs-write/1.2.3.zip''"
    by (simp add: Join_def Clean_def)
  show ?thesis
    using GetArtifactCachePath_layout [of sample_env "''docs-write''" "''1.2.3''",
        THEN conjunct2] dir path
    by simp
qed

text \<open>
  C6. For every repository URL, the git-repository cache path is the git-repos cache
  directory joined with the URL hash. The URL hash is a function of the URL alone (equal
  URLs give equal hashes), it is the first 16 characters of the hex SHA-256 digest of the
  URL's bytes, and it consists of exactly 16 lower-case hex digits.
\<close>

theorem URLHash_stable_16_hex:
  "GetGitRepoCachePath env h repoURL =
     (case GetGitReposCacheDir env of
        Inl err \<Rightarrow> Inl err
      | Inr dir \<Rightarrow> Inr (Join [dir, URLHash h repoURL])) \<and>
   (url1 = url2 \<longrightarrow> URLHash h url1 = URLHash h url2) \<and>
   URLHash h repoURL = take 16 (ComputeSHA256 h (bytes_of_string repoURL)) \<and>
   length (URLHash h repoURL) = 16 \<and>
   set (URLHash h repoURL) \<subseteq> set ''0123456789abcdef''"
proof -
  have "URLHash h repoURL = take 16 (ComputeSHA256 h (bytes_of_string repoURL))"
    by (simp add: URLHash_def ComputeSHA256_def EncodeToString_take)
  moreover have "length (URLHash h repoURL) = 16"
    by (simp add: URLHash_def length_EncodeToString length_array32)
  moreover have "set (URLHash h repoURL) \<subseteq> set ''0123456789abcdef''"
    using EncodeToString_hex [of "take 8 (array32 (Sum256 h (bytes_of_string repoURL)))"]
    by (simp add: URLHash_def hextable_def)
  ultimately show ?thesis
    by (simp add: GetGitRepoCachePath_def split: sum.splits)
qed

theorem URLHash_stable_16_hex_witness:
  "GetGitRepoCachePath sample_env sample_digests ''https://github.com/o/r.git''
     = Inr ''/c/git-repos/deadbeef00000000'' \<and>
   URLHash sample_digests ''https://github.com/o/r.git'' = ''deadbeef00000000''"
proof -
  have dir: "GetGitReposCacheDir sample_env = Inr ''/c/git-repos''"
    by (simp add: GetGitReposCacheDir_def GetCacheDir_def sample_env_def Join_def Clean_def)
  have sha: "take 16 (ComputeSHA256 sample_digests
        (bytes_of_string ''https://github.com/o/r.git'')) = ''deadbeef00000000''"
    by (simp add: ComputeSHA256_def sample_digests_def array32_def upt_rec hextable_def
        bytes_of_string_def)
  have path: "Join [''/c/git-repos'', ''deadbeef00000000''] = ''/c/git-repos/deadbeef00000000''"
    by (simp add: Join_def Clean_def)
  show ?thesis
    using URLHash_stable_16_hex [of sample_env sample_digests "''https://github.com/o/r.git''"
        "''https://github.com/o/r.git''" "''https://github.com/o/r.git''"] dir sha path
    by simp
qed

subsection \<open>Tree URLs: print, then parse\<close>

lemma strip_prefix_append: "strip_prefix p (p @ s) = Some s"
  by (simp add: strip_prefix_def)

lemma strip_prefix_Some: "strip_prefix p s = Some r \<Longrightarrow> s = p @ r"
  unfolding strip_prefix_def
  by (metis append_take_drop_id option.distinct(1) option.inject)

lemma segment_Some:
  assumes "segment s = Some (m, r)"
  shows "m \<noteq> [] \<and> CHR ''/'' \<notin> set m \<and> (r = [] \<or> hd r = CHR ''/'') \<and> s = m @ r"
proof -
  from assms have m: "m = takeWhile (\<lambda>c. c \<noteq> CHR ''/'') s" and r: "r = dropWhile (\<lambda>c. c \<noteq> CHR ''/'') s"
    and ne: "m \<noteq> []"
    by (auto simp: segment_def Let_def split: if_splits)
  have "CHR ''/'' \<notin> set m" unfolding m using set_takeWhileD by fastforce
  moreover have "r = [] \<or> hd r = CHR ''/''" unfolding r using hd_dropWhile [of "\<lambda>c. c \<noteq> CHR ''/''" s] by auto
  moreover have "s = m @ r" unfolding m r by simp
  ultimately show ?thesis using ne by simp
qed

lemma segment_append:
  assumes "m \<noteq> []" "CHR ''/'' \<notin> set m" "r = [] \<or> hd r = CHR ''/''"
  shows "segment (m @ r) = Some (m, r)"
proof -
  have t: "takeWhile (\<lambda>c. c \<noteq> CHR ''/'') (m @ r) = m"
    using assms by (cases r) (auto simp: takeWhile_append)
  have d: "dropWhile (\<lambda>c. c \<noteq> CHR ''/'') (m @ r) = r"
    using assms by (cases r) (auto simp: dropWhile_append)
  show ?thesis using assms(1) by (simp add: segment_def t d)
qed

lemma HasSuffix_slash: "HasSuffix s ''/'' = (s \<noteq> [] \<and> last s = CHR ''/'')"
  by (cases s rule: rev_cases) (auto simp: HasSuffix_def)


lemma treeURLPattern_Some:
  assumes "treeURLPattern s = Some ms"
  shows "\<exists>owner repo ref path. ms = [s, owner, repo, ref, path] \<and>
           owner \<noteq> [] \<and> CHR ''/'' \<notin> set owner \<and>
           repo \<noteq> [] \<and> CHR ''/'' \<notin> set repo \<and>
           ref \<noteq> [] \<and> CHR ''/'' \<notin> set ref \<and>
           CHR 0x0A \<notin> set path"
  using assms unfolding treeURLPattern_def
  by (auto split: option.splits if_splits dest!: segment_Some)

lemma treeURLPattern_print:
  assumes "owner \<noteq> []" "CHR ''/'' \<notin> set owner"
    and "repo \<noteq> []" "CHR ''/'' \<notin> set repo"
    and "ref \<noteq> []" "CHR ''/'' \<notin> set ref"
    and "CHR 0x0A \<notin> set path"
  shows "treeURLPattern (''https://github.com/'' @ owner @ ''/'' @ repo @ ''/tree/'' @ ref
            @ (if path \<noteq> [] then ''/'' @ path else []))
         = Some [''https://github.com/'' @ owner @ ''/'' @ repo @ ''/tree/'' @ ref
            @ (if path \<noteq> [] then ''/'' @ path else []), owner, repo, ref, path]"
proof -
  let ?tail = "if path \<noteq> [] then ''/'' @ path else []"
  have s1: "strip_prefix ''http'' (''https://github.com/'' @ owner @ ''/'' @ repo @ ''/tree/'' @ ref @ ?tail)
      = Some (''s://github.com/'' @ owner @ ''/'' @ repo @ ''/tree/'' @ ref @ ?tail)"
    by (simp add: strip_prefix_def)
  have s2: "strip_prefix ''s'' (''s://github.com/'' @ owner @ ''/'' @ repo @ ''/tree/'' @ ref @ ?tail)
      = Some (''://github.com/'' @ owner @ ''/'' @ repo @ ''/tree/'' @ ref @ ?tail)"
    by (simp add: strip_prefix_def)
  have s3: "strip_prefix ''://github.com/'' (''://github.com/'' @ owner @ ''/'' @ repo @ ''/tree/'' @ ref @ ?tail)
      = Some (owner @ ''/'' @ repo @ ''/tree/'' @ ref @ ?tail)"
    by (simp add: strip_prefix_def)
  have g1: "segment (owner @ ''/'' @ repo @ ''/tree/'' @ ref @ ?tail)
      = Some (owner, ''/'' @ repo @ ''/tree/'' @ ref @ ?tail)"
    using assms by (intro segment_append) auto
  have s5: "strip_prefix ''/'' (''/'' @ repo @ ''/tree/'' @ ref @ ?tail)
      = Some (repo @ ''/tree/'' @ ref @ ?tail)"
    by (simp add: strip_prefix_def)
  have g2: "segment (repo @ ''/tree/'' @ ref @ ?tail) = Some (repo, ''/tree/'' @ ref @ ?tail)"
    using assms by (intro segment_append) auto
  have s7: "strip_prefix ''/tree/'' (''/tree/'' @ ref @ ?tail) = Some (ref @ ?tail)"
    by (simp add: strip_prefix_def)
  have g3: "segment (ref @ ?tail) = Some (ref, ?tail)"
    using assms by (intro segment_append) auto
  have s9: "path \<noteq> [] \<Longrightarrow> strip_prefix ''/'' (''/'' @ path) = Some path"
    by (simp add: strip_prefix_def)
  show ?thesis
    unfolding treeURLPattern_def s1 s2 s3 g1 s5 g2 s7 g3 option.case prod.case
    using assms(7) s9 by simp
qed

lemma TreeURL_String_no_trim:
  assumes "Ref t \<noteq> []" "CHR ''/'' \<notin> set (Ref t)" "\<not> HasSuffix (Path t) ''/''"
  shows "TrimSuffix (TreeURL_String t) ''/'' = TreeURL_String t"
proof -
  have "last (TreeURL_String t) = (if Path t \<noteq> [] then last (Path t) else last (Ref t))"
    using assms(1) by (simp add: TreeURL_String_def Let_def)
  moreover have "last (Ref t) \<noteq> CHR ''/''" using assms(1,2) last_in_set by metis
  moreover have "Path t \<noteq> [] \<Longrightarrow> last (Path t) \<noteq> CHR ''/''"
    using assms(3) by (simp add: HasSuffix_slash)
  ultimately have "\<not> HasSuffix (TreeURL_String t) ''/''"
    by (simp add: HasSuffix_slash)
  then show ?thesis by (simp add: TrimSuffix_def)
qed

text \<open>
  C9. For every TreeURL value t that ParseTreeURL returns and whose Path does not end with
  a slash, parsing the printed form of t succeeds and returns a TreeURL with the same
  Owner, Repo, Ref and Path: the value t itself.
\<close>

theorem ParseTreeURL_String_roundtrip:
  assumes "ParseTreeURL url = Some t" and "\<not> HasSuffix (Path t) ''/''"
  shows "ParseTreeURL (TreeURL_String t) = Some t"
proof -
  from assms(1) obtain ms where ms: "treeURLPattern (TrimSuffix url ''/'') = Some ms"
    and t: "t = \<lparr>Owner = ms ! 1, Repo = ms ! 2, Ref = ms ! 3, Path = ms ! 4\<rparr>"
    by (auto simp: ParseTreeURL_def split: option.splits)
  from treeURLPattern_Some [OF ms] t
  have p: "Owner t \<noteq> []" "CHR ''/'' \<notin> set (Owner t)"
    "Repo t \<noteq> []" "CHR ''/'' \<notin> set (Repo t)"
    "Ref t \<noteq> []" "CHR ''/'' \<notin> set (Ref t)"
    "CHR 0x0A \<notin> set (Path t)"
    by auto
  have eq: "TreeURL_String t = ''https://github.com/'' @ Owner t @ ''/'' @ Repo t @ ''/tree/''
      @ Ref t @ (if Path t \<noteq> [] then ''/'' @ Path t else [])"
    by (simp add: TreeURL_String_def Let_def)
  have "treeURLPattern (TreeURL_String t)
      = Some [TreeURL_String t, Owner t, Repo t, Ref t, Path t]"
    unfolding eq by (rule treeURLPattern_print [OF p])
  then show ?thesis
    by (simp add: ParseTreeURL_def TreeURL_String_no_trim [OF p(5,6) assms(2)])
qed

theorem ParseTreeURL_String_roundtrip_witness:
  "ParseTreeURL ''http://github.com/metabase/metabase/tree/master/.claude/skills/docs-write/''
     = Some \<lparr>Owner = ''metabase'', Repo = ''metabase'', Ref = ''master'',
              Path = ''.claude/skills/docs-write''\<rparr> \<and>
   TreeURL_String \<lparr>Owner = ''metabase'', Repo = ''metabase'', Ref = ''master'',
              Path = ''.claude/skills/docs-write''\<rparr>
     = ''https://github.com/metabase/metabase/tree/master/.claude/skills/docs-write'' \<and>
   ParseTreeURL ''https://github.com/metabase/metabase/tree/master/.claude/skills/docs-write''
     = Some \<lparr>Owner = ''metabase'', Repo = ''metabase'', Ref = ''master'',
              Path = ''.claude/skills/docs-write''\<rparr>"
proof -
  have parse: "ParseTreeURL
      ''http://github.com/metabase/metabase/tree/master/.claude/skills/docs-write/''
     = Some \<lparr>Owner = ''metabase'', Repo = ''metabase'', Ref = ''master'',
              Path = ''.claude/skills/docs-write''\<rparr>"
    by (simp add: ParseTreeURL_def treeURLPattern_def TrimSuffix_def HasSuffix_def
        strip_prefix_def segment_def)
  have nosuffix: "\<not> HasSuffix (Path \<lparr>Owner = ''metabase'', Repo = ''metabase'',
      Ref = ''master'', Path = ''.claude/skills/docs-write''\<rparr>) ''/''"
    by (simp add: HasSuffix_def)
  have print: "TreeURL_String \<lparr>Owner = ''metabase'', Repo = ''metabase'', Ref = ''master'',
              Path = ''.claude/skills/docs-write''\<rparr>
     = ''https://github.com/metabase/metabase/tree/master/.claude/skills/docs-write''"
    by (simp add: TreeURL_String_def)
  show ?thesis
    using ParseTreeURL_String_roundtrip [OF parse nosuffix] parse print by simp
qed

subsection \<open>Creating directories\<close>

lemma Mkdir_creates: "Mkdir fs path = (fs', None) \<Longrightarrow> lookup fs' (Clean path) = Some DirNode"
  by (auto simp: Mkdir_def Let_def lookup_def split: if_splits option.splits node.splits)

lemma Mkdir_keeps:
  "Mkdir fs path = (fs', r) \<Longrightarrow> lookup fs k = Some DirNode \<Longrightarrow> lookup fs' k = Some DirNode"
  by (auto simp: Mkdir_def Let_def lookup_def split: if_splits option.splits node.splits)

lemma MkdirAll_existing: "stat fs path = Some DirNode \<Longrightarrow> MkdirAll fs path = (fs, None)"
  by (simp add: MkdirAll.simps)

lemma MkdirAll_keeps:
  "MkdirAll fs path = (fs', r) \<Longrightarrow> lookup fs k = Some DirNode \<Longrightarrow> lookup fs' k = Some DirNode"
proof (induction fs path arbitrary: fs' r rule: MkdirAll.induct)
  case (1 fs path)
  show ?case
  proof (cases "stat fs path")
    case (Some n)
    with "1.prems" show ?thesis
      by (cases n) (auto simp: MkdirAll.simps [of fs path])
  next
    case None
    obtain fs1 r1 where par: "(if parent_prefix path \<noteq> [] then MkdirAll fs (parent_prefix path)
                 else (fs, None)) = (fs1, r1)" by fastforce
    have k1: "lookup fs1 k = Some DirNode"
    proof (cases "parent_prefix path \<noteq> []")
      case True
      with par "1.IH" [OF None True _ "1.prems"(2)] show ?thesis by simp
    next
      case False
      with par "1.prems"(2) show ?thesis by simp
    qed
    show ?thesis
    proof (cases r1)
      case (Some e)
      with "1.prems"(1) None par k1 show ?thesis
        by (simp add: MkdirAll.simps [of fs path])
    next
      case None2: None
      obtain fs2 r2 where mk: "Mkdir fs1 path = (fs2, r2)" by fastforce
      from Mkdir_keeps [OF mk k1] have "lookup fs2 k = Some DirNode" .
      moreover have "fs' = fs2"
        using "1.prems"(1) None par None2 mk
        by (auto simp: MkdirAll.simps [of fs path] split: option.splits if_splits)
      ultimately show ?thesis by simp
    qed
  qed
qed

lemma MkdirAll_creates: "MkdirAll fs path = (fs', None) \<Longrightarrow> stat fs' path = Some DirNode"
proof -
  assume a: "MkdirAll fs path = (fs', None)"
  show ?thesis
  proof (cases "stat fs path")
    case (Some n)
    with a show ?thesis by (cases n) (auto simp: MkdirAll.simps [of fs path])
  next
    case None
    obtain fs1 r1 where par: "(if parent_prefix path \<noteq> [] then MkdirAll fs (parent_prefix path)
                 else (fs, None)) = (fs1, r1)" by fastforce
    obtain fs2 r2 where mk: "Mkdir fs1 path = (fs2, r2)" by fastforce
    from a None par mk show ?thesis
      by (auto simp: MkdirAll.simps [of fs path] stat_def split: option.splits if_splits
          dest: Mkdir_creates)
  qed
qed

lemma ensure_each_keeps:
  "ensure_each env dirs fs = (fs', r) \<Longrightarrow> lookup fs k = Some DirNode \<Longrightarrow>
   lookup fs' k = Some DirNode"
proof (induction dirs arbitrary: fs)
  case Nil
  then show ?case by simp
next
  case (Cons f dirs)
  show ?case
  proof (cases "f env")
    case (Inl e)
    with Cons.prems show ?thesis by simp
  next
    case (Inr dir)
    obtain fs1 r1 where e: "EnsureDir fs dir = (fs1, r1)" by fastforce
    then have k1: "lookup fs1 k = Some DirNode"
      using MkdirAll_keeps Cons.prems(2) by (simp add: EnsureDir_def)
    show ?thesis
    proof (cases r1)
      case None
      with Cons.prems(1) Inr e have "ensure_each env dirs fs1 = (fs', r)" by simp
      from Cons.IH [OF this k1] show ?thesis .
    next
      case (Some err)
      with Cons.prems(1) Inr e k1 show ?thesis by auto
    qed
  qed
qed

lemma ensure_each_creates:
  "ensure_each env dirs fs = (fs', None) \<Longrightarrow>
   \<forall>f \<in> set dirs. \<exists>dir. f env = Inr dir \<and> stat fs' dir = Some DirNode"
proof (induction dirs arbitrary: fs)
  case Nil
  then show ?case by simp
next
  case (Cons f dirs)
  from Cons.prems obtain dir where d: "f env = Inr dir"
    by (cases "f env") auto
  obtain fs1 r1 where e: "EnsureDir fs dir = (fs1, r1)" by fastforce
  with Cons.prems d have r1: "r1 = None" and rest: "ensure_each env dirs fs1 = (fs', None)"
    by (auto split: option.splits)
  from e r1 have "stat fs1 dir = Some DirNode"
    using MkdirAll_creates by (simp add: EnsureDir_def)
  then have "stat fs' dir = Some DirNode"
    using ensure_each_keeps [OF rest] by (simp add: stat_def)
  with d Cons.IH [OF rest] show ?case by simp
qed

lemma ensure_each_existing:
  "\<forall>f \<in> set dirs. \<exists>dir. f env = Inr dir \<and> stat fs dir = Some DirNode \<Longrightarrow>
   ensure_each env dirs fs = (fs, None)"
  by (induction dirs) (auto simp: EnsureDir_def MkdirAll_existing)

text \<open>
  C7. EnsureCacheDirs is idempotent: whenever one call succeeds, a call repeated at once
  (same surroundings, the file system the first call left) succeeds too and leaves the
  file system as it is; the root, artifacts, git-repos and lockfiles cache directories
  are directories then.
\<close>

theorem EnsureCacheDirs_idempotent:
  assumes "EnsureCacheDirs env fs = (fs', None)"
  shows "EnsureCacheDirs env fs' = (fs', None) \<and>
         (\<forall>dirFunc \<in> set [GetCacheDir, GetArtifactCacheDir, GetGitReposCacheDir,
                            GetLockFileCacheDir].
            \<exists>dir. dirFunc env = Inr dir \<and> IsDirectory fs' dir)"
proof -
  have all: "\<forall>f \<in> set [GetCacheDir, GetArtifactCacheDir, GetGitReposCacheDir,
      GetLockFileCacheDir]. \<exists>dir. f env = Inr dir \<and> stat fs' dir = Some DirNode"
    using assms unfolding EnsureCacheDirs_def by (rule ensure_each_creates)
  from ensure_each_existing [OF all] all show ?thesis
    unfolding EnsureCacheDirs_def IsDirectory_def by simp
qed

theorem EnsureCacheDirs_idempotent_witness:
  "snd (EnsureCacheDirs sample_env empty_fs) = None \<and>
   EnsureCacheDirs sample_env (fst (EnsureCacheDirs sample_env empty_fs))
     = EnsureCacheDirs sample_env empty_fs \<and>
   IsDirectory (fst (EnsureCacheDirs sample_env empty_fs)) ''/c/artifacts''"
proof -
  have ok: "snd (EnsureCacheDirs sample_env empty_fs) = None"
    by (simp add: EnsureCacheDirs_def EnsureDir_def MkdirAll.simps stat_def lookup_def
        Mkdir_def empty_fs_def GetArtifactCacheDir_def GetCacheDir_def GetGitReposCacheDir_def
        GetLockFileCacheDir_def sample_env_def Join_def Clean_def Dir_def parent_prefix_def)
  then have run: "EnsureCacheDirs sample_env empty_fs
      = (fst (EnsureCacheDirs sample_env empty_fs), None)"
    by (simp add: prod_eq_iff)
  have dir: "GetArtifactCacheDir sample_env = Inr ''/c/artifacts''"
    by (simp add: GetArtifactCacheDir_def GetCacheDir_def sample_env_def Join_def Clean_def)
  show ?thesis
    using EnsureCacheDirs_idempotent [OF run] ok run dir by auto
qed

subsection \<open>The agent handler\<close>

text \<open>
  C4. For every zip payload and target base directory, the agent handler's Install
  validates the payload before it touches the file system: when Validate fails, Install
  returns the validation error and the file system, the target base directory included,
  is as it was; and whenever Install changed the file system, Validate had succeeded.
\<close>

theorem Install_validates_first:
  "(\<forall>err. Validate lib zipData = Some err \<longrightarrow>
      Install lib h fs zipData targetBase = (fs, Some (''validation failed: '' @ err))) \<and>
   (fst (Install lib h fs zipData targetBase) \<noteq> fs \<longrightarrow> Validate lib zipData = None)"
  by (cases "Validate lib zipData") (simp_all add: Install_def)

theorem Install_validates_first_witness:
  "Validate sample_lib [] = Some ''failed to list zip files: zip: not a valid zip file'' \<and>
   Install sample_lib sample_handler installed_fs [] ''/home/u/.claude'' =
     (installed_fs,
      Some ''validation failed: failed to list zip files: zip: not a valid zip file'')"
proof -
  have v: "Validate sample_lib [] = Some ''failed to list zip files: zip: not a valid zip file''"
    by (simp add: Validate_def sample_lib_def)
  show ?thesis
    using Install_validates_first [of sample_lib "[]" sample_handler installed_fs
        "''/home/u/.claude''"] v
    by simp
qed





subsection \<open>The install command\<close>

text \<open>
  C3, as the specification states it: every run of the install command goes through the
  phases Resolve, Fetch, Install and Reconcile, and some well-formed lock file lets the
  install complete without error. With a well-formed lock file in the working directory
  the run prints a notice and returns the error "not yet implemented"; the file system is
  not touched.
\<close>

theorem runInstall_stub_counterexample:
  "stat (files lock_world) ''sleuth.lock'' = Some (FileNode sample_lock) \<and>
   runInstall lock_world [] =
     (lock_world\<lparr>stdout := ''Install command - To be implemented'' @ [CHR 0x0A]\<rparr>,
      Some ''not yet implemented'')"
  by (simp add: runInstall_def lock_world_def stat_def lookup_def Clean_def)

text \<open>
  C3, amended. Every run of the install command prints the notice "Install command - To
  be implemented" and returns the error "not yet implemented", whatever the lock file and
  the arguments; it leaves the file system as it is (no Resolve, Fetch, Install or
  Reconcile phase is run), and no run completes without error.
\<close>

theorem runInstall_not_implemented:
  "snd (runInstall w args) = Some ''not yet implemented'' \<and>
   files (fst (runInstall w args)) = files w \<and>
   stdout (fst (runInstall w args)) =
     stdout w @ ''Install command - To be implemented'' @ [CHR 0x0A] \<and>
   (\<nexists>w' args'. snd (runInstall w' args') = None)"
  by (simp add: runInstall_def)

subsection \<open>The session cache\<close>























subsection \<open>The lock model: serialize, then parse\<close>

lemma and_then_Inr [simp]: "and_then (Inr x) f = f x"
  by (simp add: and_then_def)

lemma and_then_Inl [simp]: "and_then (Inl e) f = Inl e"
  by (simp add: and_then_def)

lemma each_map:
  "(\<And>x. x \<in> set xs \<Longrightarrow> f (g x) = Inr x) \<Longrightarrow> each f (map g xs) = Inr xs"
  by (induction xs) simp_all

lemma map_of_optional:
  "map_of (optional key f v) k = (if k = key then map_option f v else None)"
  by (cases v) (simp_all add: optional_def)

lemma map_of_serialize_source_other:
  "k \<noteq> ''source-http'' \<Longrightarrow> k \<noteq> ''source-git'' \<Longrightarrow> k \<noteq> ''source-path'' \<Longrightarrow>
   map_of (serialize_source src) k = None"
  by (cases src) simp_all

lemma map_of_serialize_scope_other:
  "k \<noteq> ''scope'' \<Longrightarrow> k \<noteq> ''repo'' \<Longrightarrow> k \<noteq> ''path'' \<Longrightarrow>
   map_of (serialize_scope sc) k = None"
  by (cases sc rule: serialize_scope.cases) simp_all

lemma parse_type_name: "parse_type (type_name ty) = Inr ty"
  by (cases ty) (simp_all add: parse_type_def)

lemma parse_dependency_serialize: "parse_dependency (serialize_dependency d) = Inr d"
  by (cases "dep_version d")
    (simp_all add: parse_dependency_def serialize_dependency_def required_string_def
      optional_string_def as_string_def optional_def)

lemma parse_hashes_serialize:
  assumes "hashes \<noteq> []" and "distinct (map fst hashes)"
  shows "parse_hashes (VTable (map (\<lambda>(alg, digest). (alg, VStr digest)) hashes)) = Inr hashes"
proof -
  have "each (\<lambda>(alg, d). and_then (as_string alg d) (\<lambda>s. Inr (alg, s)))
          (map (\<lambda>(alg, digest). (alg, VStr digest)) hashes) = Inr hashes"
    by (rule each_map) (auto simp: as_string_def)
  with assms show ?thesis by (simp add: parse_hashes_def)
qed

lemma parse_source_serialize:
  assumes "valid_source src"
  shows "choose_source (map_of (serialize_source src) ''source-http'')
           (map_of (serialize_source src) ''source-git'')
           (map_of (serialize_source src) ''source-path'') = Inr src"
proof (cases src)
  case (HttpSource url hashes sz uploadedAt)
  with assms have "parse_hashes (VTable (map (\<lambda>(alg, digest). (alg, VStr digest)) hashes))
      = Inr hashes"
    by (intro parse_hashes_serialize) auto
  with HttpSource show ?thesis
    by (cases sz; cases uploadedAt)
      (simp_all add: choose_source_def parse_http_def required_string_def
        optional_string_def optional_int_def as_string_def optional_def)
next
  case (GitSource url ref subdirectory)
  with assms show ?thesis
    by (cases subdirectory)
      (simp_all add: choose_source_def parse_git_def required_string_def
        optional_string_def as_string_def optional_def)
next
  case (PathSource path)
  then show ?thesis
    by (simp add: choose_source_def parse_path_def required_string_def as_string_def)
qed

lemma parse_scope_serialize:
  "choose_scope (map_of (serialize_scope sc) ''scope'') (map_of (serialize_scope sc) ''repo'')
     (map_of (serialize_scope sc) ''path'') = Inr sc"
  by (cases sc rule: serialize_scope.cases) (simp_all add: choose_scope_def as_string_def)

lemma map_of_append_first:
  "map_of (xs @ ys) k = (case map_of xs k of Some v \<Rightarrow> Some v | None \<Rightarrow> map_of ys k)"
  by (simp add: map_add_def split: option.splits)

lemma artifact_table_name: "map_of (artifact_table a) ''name'' = Some (VStr (art_name a))"
  by (simp add: artifact_table_def)

lemma artifact_table_version:
  "map_of (artifact_table a) ''version'' = Some (VStr (art_version a))"
  by (simp add: artifact_table_def)

lemma artifact_table_type:
  "map_of (artifact_table a) ''type'' = Some (VStr (type_name (art_type a)))"
  by (simp add: artifact_table_def)

lemma artifact_table_clients:
  "map_of (artifact_table a) ''clients''
     = map_option (\<lambda>cs. VList (map VStr cs)) (art_clients a)"
  unfolding artifact_table_def
  by (cases "art_clients a")
    (simp_all add: map_of_append_first map_of_optional map_of_serialize_source_other
      map_of_serialize_scope_other del: map_of_append)

lemma artifact_table_source:
  assumes "k = ''source-http'' \<or> k = ''source-git'' \<or> k = ''source-path''"
  shows "map_of (artifact_table a) k = map_of (serialize_source (art_source a)) k"
proof -
  from assms have "map_of (serialize_scope (art_scope a)) k = None"
    by (intro map_of_serialize_scope_other) auto
  with assms show ?thesis
    unfolding artifact_table_def
    by (cases "map_of (serialize_source (art_source a)) k")
      (auto simp add: map_of_append_first map_of_optional simp del: map_of_append)
qed

lemma artifact_table_scope:
  assumes "k = ''scope'' \<or> k = ''repo'' \<or> k = ''path''"
  shows "map_of (artifact_table a) k = map_of (serialize_scope (art_scope a)) k"
proof -
  from assms have "map_of (serialize_source (art_source a)) k = None"
    by (intro map_of_serialize_source_other) auto
  with assms show ?thesis
    unfolding artifact_table_def
    by (cases "map_of (serialize_scope (art_scope a)) k")
      (auto simp add: map_of_append_first map_of_optional simp del: map_of_append)
qed

lemma artifact_table_dependencies:
  "map_of (artifact_table a) ''dependencies''
     = (if art_dependencies a = [] then None
        else Some (VList (map serialize_dependency (art_dependencies a))))"
  unfolding artifact_table_def
  by (simp add: map_of_append_first map_of_optional map_of_serialize_source_other
      map_of_serialize_scope_other del: map_of_append)

lemma parse_artifact_serialize:
  assumes "valid_source (art_source a)"
  shows "parse_artifact (serialize_artifact a) = Inr a"
proof -
  let ?t = "artifact_table a"
  have n: "required_string ?t ''name'' = Inr (art_name a)"
    by (simp add: required_string_def artifact_table_name as_string_def)
  have v: "required_string ?t ''version'' = Inr (art_version a)"
    by (simp add: required_string_def artifact_table_version as_string_def)
  have ty: "and_then (required_string ?t ''type'') parse_type = Inr (art_type a)"
    by (simp add: required_string_def artifact_table_type as_string_def parse_type_name)
  have "each (as_string ''clients'') (map VStr cs) = Inr cs" for cs
    by (rule each_map) (simp add: as_string_def)
  then have cs: "parse_clients ?t = Inr (art_clients a)"
    by (cases "art_clients a") (simp_all add: parse_clients_def artifact_table_clients)
  have src: "parse_source ?t = Inr (art_source a)"
    using parse_source_serialize [OF assms]
    by (simp add: parse_source_def artifact_table_source)
  have sc: "parse_scope ?t = Inr (art_scope a)"
    using parse_scope_serialize [of "art_scope a"]
    by (simp add: parse_scope_def artifact_table_scope)
  have "each parse_dependency (map serialize_dependency ds) = Inr ds" for ds
    by (rule each_map) (rule parse_dependency_serialize)
  then have deps: "parse_dependencies ?t = Inr (art_dependencies a)"
    by (simp add: parse_dependencies_def artifact_table_dependencies)
  show ?thesis
    by (simp add: parse_artifact_def serialize_artifact_def n v ty cs src sc deps)
qed

text \<open>
  C2. For every valid LockFile value x (a known major format version, hashes on every
  HTTP source, a full commit SHA on every git source), parsing the serialization of x
  succeeds and yields x.
\<close>

theorem parse_serialize_roundtrip:
  assumes "valid_lockfile x"
  shows "parse (serialize x) = Inr x"
proof -
  from assms have major: "major_version (lock_version x) = ''1''"
    and srcs: "\<And>a. a \<in> set (artifacts x) \<Longrightarrow> valid_source (art_source a)"
    by (auto simp: valid_lockfile_def)
  have arts: "each parse_artifact (map serialize_artifact (artifacts x)) = Inr (artifacts x)"
    by (rule each_map) (rule parse_artifact_serialize, rule srcs)
  show ?thesis
    using major arts
    by (cases "artifacts x = []")
      (simp_all add: parse_def serialize_def required_string_def as_string_def)
qed

theorem parse_serialize_roundtrip_witness:
  "valid_lockfile sample_lockfile \<and> parse (serialize sample_lockfile) = Inr sample_lockfile"
proof -
  have v: "valid_lockfile sample_lockfile"
    by (simp add: valid_lockfile_def sample_lockfile_def major_version_def is_commit_sha_def)
  from parse_serialize_roundtrip [OF v] v show ?thesis by simp
qed

end
